theory Spec2Isabelle
  imports Complex_Main "HOL-Library.Word" "HOL-Library.Finite_Map" "HOL-Library.Signed_Division"
begin

section \<open>Data model\<close>

text \<open>
  The package \<open>boundedcache\<close> holds two implementations of a two-generation cache:
  the type-parameterized \<open>BoundedCache[V]\<close> (keys are strings) and the older any-typed
  \<open>BoundedCache\<close> of \<open>cache.go\<close> (keys and values are \<open>interface{}\<close>). Both structs
  have the same three data fields, so one record, polymorphic in the key and value types,
  embeds both. The field \<open>rwm\<close> (the lock) has no counterpart: every method is embedded as
  one sequential step, that is, as it runs when no other goroutine interleaves.

  A Go map is a finite map; \<open>len\<close> counts its entries. Go's \<open>int\<close> is taken as the
  64-bit two's complement integer of the usual platforms: \<open>+\<close> and \<open>*\<close> wrap around,
  comparison is signed, and \<open>/\<close> truncates towards zero. The number of entries of a map
  is limited by memory, so \<open>len\<close> is embedded as an unbounded integer.
\<close>

type_synonym go_int = "64 word"

definition go_div :: "go_int \<Rightarrow> go_int \<Rightarrow> go_int" where
  "go_div a b = word_of_int (sint a sdiv sint b)"

definition len :: "('k, 'v) fmap \<Rightarrow> int" where
  "len m = int (fcard (fmdom m))"

record ('k, 'v) BoundedCache =
  staleItems :: "('k, 'v) fmap"
  freshItems :: "('k, 'v) fmap"
  maxItemMapLen :: go_int

datatype error = Error string

section \<open>The type-parameterized cache\<close>

definition NewBoundedCache :: "go_int \<Rightarrow> error + (string, 'v) BoundedCache" where
  "NewBoundedCache maxItems =
     (if maxItems <s 1 then Inl (Error ''maxItems must be at least 1'')
      else Inr \<lparr>staleItems = fmempty, freshItems = fmempty,
                maxItemMapLen = go_div (maxItems + 1) 2\<rparr>)"

definition MaxItems :: "('k, 'v) BoundedCache \<Rightarrow> go_int" where
  "MaxItems b = maxItemMapLen b * 2"

definition Len :: "('k, 'v) BoundedCache \<Rightarrow> int" where
  "Len b = len (freshItems b) + len (staleItems b)"

definition Purge :: "('k, 'v) BoundedCache \<Rightarrow> ('k, 'v) BoundedCache" where
  "Purge b = b\<lparr>staleItems := fmempty, freshItems := fmempty\<rparr>"

text \<open>
  \<open>addLocked\<close>: the named result \<open>evicted\<close> starts as \<open>false\<close>; when the fresh map is
  full, the stale map is replaced by the fresh one and a new fresh map is made; then the
  entry is stored. The result is the flag and the cache after the call.
\<close>

definition addLocked :: "(string, 'v) BoundedCache \<Rightarrow> string \<Rightarrow> 'v \<Rightarrow> bool \<times> (string, 'v) BoundedCache" where
  "addLocked b key val =
     (let (evicted, b1) =
            (if sint (maxItemMapLen b) \<le> len (freshItems b)
             then (0 < len (staleItems b),
                   b\<lparr>staleItems := freshItems b, freshItems := fmempty\<rparr>)
             else (False, b))
      in (evicted, b1\<lparr>freshItems := fmupd key val (freshItems b1)\<rparr>))"

definition Add :: "(string, 'v) BoundedCache \<Rightarrow> string \<Rightarrow> 'v \<Rightarrow> bool \<times> (string, 'v) BoundedCache" where
  "Add b key val = addLocked b key val"

text \<open>
  \<open>Get\<close> returns \<open>(val, ok, evicted)\<close> and the cache after the call. The zero value
  \<open>nilV\<close> of the value type is the \<open>0\<close> of class \<open>zero\<close>.
\<close>

definition Get :: "(string, 'v::zero) BoundedCache \<Rightarrow> string \<Rightarrow> ('v \<times> bool \<times> bool) \<times> (string, 'v) BoundedCache" where
  "Get b key =
     (case fmlookup (freshItems b) key of
        Some val \<Rightarrow> ((val, True, False), b)
      | None \<Rightarrow>
          (case fmlookup (staleItems b) key of
             Some val \<Rightarrow>
               (let b1 = b\<lparr>staleItems := fmdrop key (staleItems b)\<rparr>;
                    (evicted, b2) = addLocked b1 key val
                in ((val, True, evicted), b2))
           | None \<Rightarrow> ((0, False, False), b)))"

text \<open>\<open>Peek\<close> returns \<open>(val, ok, stale)\<close> and the cache after the call.\<close>

definition Peek :: "(string, 'v::zero) BoundedCache \<Rightarrow> string \<Rightarrow> ('v \<times> bool \<times> bool) \<times> (string, 'v) BoundedCache" where
  "Peek b key =
     (case fmlookup (freshItems b) key of
        Some val \<Rightarrow> ((val, True, False), b)
      | None \<Rightarrow>
          (case fmlookup (staleItems b) key of
             Some val \<Rightarrow> ((val, True, True), b)
           | None \<Rightarrow> ((0, False, False), b)))"

text \<open>
  \<open>GetOrCreate\<close>: the callback \<open>create\<close> is a Go closure, so it may have effects of
  its own. It is embedded as a function on a state \<open>'w\<close> of the caller (which the cache
  does not see), returning the created value and the state after the call; that state is
  threaded through \<open>GetOrCreate\<close>, so that a call of \<open>create\<close> is visible in the
  result. The result is \<open>(val, created, evicted)\<close>, the cache and the caller's state.
  The second look at \<open>freshItems\<close> is kept as in the source.
\<close>

definition GetOrCreate :: "(string, 'v) BoundedCache \<Rightarrow> string \<Rightarrow> ('w \<Rightarrow> 'v \<times> 'w) \<Rightarrow> 'w
    \<Rightarrow> ('v \<times> bool \<times> bool) \<times> (string, 'v) BoundedCache \<times> 'w" where
  "GetOrCreate b key create w =
     (case fmlookup (freshItems b) key of
        Some val \<Rightarrow> ((val, False, False), b, w)
      | None \<Rightarrow>
          (case fmlookup (staleItems b) key of
             Some val \<Rightarrow>
               (let b1 = b\<lparr>staleItems := fmdrop key (staleItems b)\<rparr>;
                    (evicted, b2) = addLocked b1 key val
                in ((val, False, evicted), b2, w))
           | None \<Rightarrow>
               (case fmlookup (freshItems b) key of
                  Some val \<Rightarrow> ((val, False, False), b, w)
                | None \<Rightarrow>
                    (let (val, w') = create w;
                         (evicted, b2) = addLocked b key val
                     in ((val, True, evicted), b2, w')))))"

subsection \<open>Sequences of calls\<close>

datatype ('v, 'w) op =
    OpAdd string 'v
  | OpGet string
  | OpPeek string
  | OpGetOrCreate string "'w \<Rightarrow> 'v \<times> 'w"
  | OpLen
  | OpMaxItems
  | OpPurge

datatype 'v result =
    RAdd bool
  | RGet 'v bool bool
  | RPeek 'v bool bool
  | RGetOrCreate 'v bool bool
  | RLen int
  | RMaxItems go_int
  | RPurge

fun step :: "('v::zero, 'w) op \<Rightarrow> (string, 'v) BoundedCache \<times> 'w
    \<Rightarrow> 'v result \<times> (string, 'v) BoundedCache \<times> 'w" where
  "step (OpAdd key val) (b, w) = (let (e, b') = Add b key val in (RAdd e, b', w))"
| "step (OpGet key) (b, w) = (let ((v, ok, e), b') = Get b key in (RGet v ok e, b', w))"
| "step (OpPeek key) (b, w) = (let ((v, ok, s), b') = Peek b key in (RPeek v ok s, b', w))"
| "step (OpGetOrCreate key create) (b, w) =
     (let ((v, c, e), b', w') = GetOrCreate b key create w in (RGetOrCreate v c e, b', w'))"
| "step OpLen (b, w) = (RLen (Len b), b, w)"
| "step OpMaxItems (b, w) = (RMaxItems (MaxItems b), b, w)"
| "step OpPurge (b, w) = (RPurge, Purge b, w)"

fun run :: "('v::zero, 'w) op list \<Rightarrow> (string, 'v) BoundedCache \<times> 'w
    \<Rightarrow> 'v result list \<times> (string, 'v) BoundedCache \<times> 'w" where
  "run [] s = ([], s)"
| "run (p # ps) s =
     (let (r, s') = step p s; (rs, s'') = run ps s' in (r # rs, s''))"

definition cache_after :: "('v::zero, 'w) op list \<Rightarrow> (string, 'v) BoundedCache \<times> 'w
    \<Rightarrow> (string, 'v) BoundedCache" where
  "cache_after ps s = fst (snd (run ps s))"

section \<open>The rotation protocol, as the specification words it\<close>

text \<open>
  Step 1: if \<open>size(fresh) \<ge> halfCapacity\<close>, the stale generation is discarded and
  replaced by the fresh one, fresh is reset to a new empty generation, and
  \<open>evicted = (previous stale was non-empty)\<close>. Step 2: insert or overwrite the key in
  fresh. Step 3: return \<open>evicted\<close>.
\<close>

definition rotation_due :: "(string, 'v) BoundedCache \<Rightarrow> bool" where
  "rotation_due b = (len (freshItems b) \<ge> sint (maxItemMapLen b))"

definition rotation_protocol :: "(string, 'v) BoundedCache \<Rightarrow> string \<Rightarrow> 'v \<Rightarrow> bool \<times> (string, 'v) BoundedCache" where
  "rotation_protocol b key val =
     (rotation_due b \<and> staleItems b \<noteq> fmempty,
      \<lparr>staleItems = (if rotation_due b then freshItems b else staleItems b),
       freshItems = fmupd key val (if rotation_due b then fmempty else freshItems b),
       maxItemMapLen = maxItemMapLen b\<rparr>)"

text \<open>
  Promotion of a stale entry, as \<open>get\<close> words it: remove the key from stale, then insert
  it into fresh via the rotation protocol.
\<close>

definition promote :: "(string, 'v) BoundedCache \<Rightarrow> string \<Rightarrow> 'v \<Rightarrow> bool \<times> (string, 'v) BoundedCache" where
  "promote b key val = rotation_protocol (b\<lparr>staleItems := fmdrop key (staleItems b)\<rparr>) key val"

section \<open>Capacity and size bounds, as the specification words them\<close>

text \<open>
  The specification sets \<open>halfCapacity = ceil(maxItems / 2)\<close> and bounds each generation
  by it, and the total by \<open>halfCapacity * 2\<close>.
\<close>

definition halfCapacity :: "go_int \<Rightarrow> int" where
  "halfCapacity maxItems = \<lceil>real_of_int (sint maxItems) / 2\<rceil>"

definition bounded :: "int \<Rightarrow> ('k, 'v) BoundedCache \<Rightarrow> bool" where
  "bounded h b =
     (len (freshItems b) \<le> h \<and> len (staleItems b) \<le> h
      \<and> len (freshItems b) + len (staleItems b) \<le> h * 2)"

text \<open>
  The invariant behind the bounds: the stored \<open>maxItemMapLen\<close> is at most \<open>h\<close>, and
  neither generation holds more than \<open>h\<close> entries.
\<close>

definition fits :: "int \<Rightarrow> ('k, 'v) BoundedCache \<Rightarrow> bool" where
  "fits h b =
     (sint (maxItemMapLen b) \<le> h \<and> 1 \<le> h
      \<and> len (freshItems b) \<le> h \<and> len (staleItems b) \<le> h)"

section \<open>Residence of keys\<close>


definition resident :: "('k, 'v) BoundedCache \<Rightarrow> 'k \<Rightarrow> bool" where
  "resident b key = (key |\<in>| fmdom (freshItems b) \<or> key |\<in>| fmdom (staleItems b))"




section \<open>The any-typed cache of cache.go\<close>









subsection \<open>Sequences of calls, and their comparison\<close>









section \<open>Properties of the rotation protocol\<close>

lemma len_fmempty: "len fmempty = 0"
  by (simp add: len_def)

lemma len_nonneg: "0 \<le> len m"
  by (simp add: len_def)

lemma len_pos_iff: "0 < len m \<longleftrightarrow> m \<noteq> fmempty"
proof
  assume "0 < len m"
  then show "m \<noteq> fmempty" by (auto simp: len_def fcard_fempty)
next
  assume ne: "m \<noteq> fmempty"
  have "fmdom m \<noteq> {||}"
  proof
    assume "fmdom m = {||}"
    then have "fmlookup m x = None" for x
      by (metis fmdom_notD fempty_iff)
    then have "m = fmempty" by (intro fmap_ext) simp
    with ne show False by simp
  qed
  then have "0 < fcard (fmdom m)" by (metis fcard_0_eq gr0I)
  then show "0 < len m" by (simp add: len_def)
qed

text \<open>
  C1. \<open>addLocked\<close> is the rotation protocol of the specification, and \<open>Add\<close> returns
  \<open>true\<close> exactly when its insertion rotated the generations while the stale generation
  held at least one entry, that is, when it discarded a non-empty stale generation.
\<close>

theorem addLocked_is_rotation_protocol:
  "addLocked b key val = rotation_protocol b key val
   \<and> (fst (Add b key val) \<longleftrightarrow>
        (sint (maxItemMapLen b) \<le> len (freshItems b) \<and> staleItems b \<noteq> fmempty))
   \<and> snd (Add b key val) = snd (rotation_protocol b key val)"
  by (simp add: addLocked_def Add_def rotation_protocol_def rotation_due_def len_pos_iff)

theorem addLocked_is_rotation_protocol_witness:
  "addLocked \<lparr>staleItems = fmupd ''x'' 9 fmempty, freshItems = fmupd ''a'' 1 fmempty, maxItemMapLen = 1\<rparr> ''b'' (2::int)
     = (True, \<lparr>staleItems = fmupd ''a'' 1 fmempty, freshItems = fmupd ''b'' 2 fmempty, maxItemMapLen = 1\<rparr>)
   \<and> Add \<lparr>staleItems = fmupd ''x'' 9 fmempty, freshItems = fmupd ''a'' 1 fmempty, maxItemMapLen = 1\<rparr> ''b'' (2::int)
     = (True, \<lparr>staleItems = fmupd ''a'' 1 fmempty, freshItems = fmupd ''b'' 2 fmempty, maxItemMapLen = 1\<rparr>)
   \<and> Add \<lparr>staleItems = fmempty, freshItems = fmupd ''a'' 1 fmempty, maxItemMapLen = 1\<rparr> ''b'' (2::int)
     = (False, \<lparr>staleItems = fmupd ''a'' 1 fmempty, freshItems = fmupd ''b'' 2 fmempty, maxItemMapLen = 1\<rparr>)
   \<and> Add \<lparr>staleItems = fmupd ''x'' 9 fmempty, freshItems = fmupd ''a'' 1 fmempty, maxItemMapLen = 2\<rparr> ''b'' (2::int)
     = (False, \<lparr>staleItems = fmupd ''x'' 9 fmempty, freshItems = fmupd ''b'' 2 (fmupd ''a'' 1 fmempty), maxItemMapLen = 2\<rparr>)"
  using addLocked_is_rotation_protocol [of "\<lparr>staleItems = fmupd ''x'' 9 fmempty, freshItems = fmupd ''a'' 1 fmempty, maxItemMapLen = 1\<rparr>" "''b''" "2::int"]
    addLocked_is_rotation_protocol [of "\<lparr>staleItems = fmempty, freshItems = fmupd ''a'' 1 fmempty, maxItemMapLen = 1\<rparr>" "''b''" "2::int"]
    addLocked_is_rotation_protocol [of "\<lparr>staleItems = fmupd ''x'' 9 fmempty, freshItems = fmupd ''a'' 1 fmempty, maxItemMapLen = 2\<rparr>" "''b''" "2::int"]
  by (simp add: Add_def rotation_protocol_def rotation_due_def len_def fcard_fempty fcard_finsert_if)

section \<open>Construction\<close>

lemma halfCapacity_div: "halfCapacity m = (sint m + 1) div 2"
  unfolding halfCapacity_def by linarith

lemma sint_succ:
  fixes m :: go_int
  assumes "m \<noteq> 9223372036854775807"
  shows "sint (m + 1) = sint m + 1"
proof -
  have ub: "sint m < 2 ^ 63" using sint_lt [of m] by simp
  have lb: "- (2 ^ 63) \<le> sint m" using sint_ge [of m] by simp
  have "sint m \<noteq> 9223372036854775807"
  proof
    assume "sint m = 9223372036854775807"
    then have "sint m = sint (9223372036854775807 :: go_int)" by simp
    then have "m = 9223372036854775807" by (rule signed_word_eqI)
    with assms show False by simp
  qed
  with ub have "sint m + 1 < 2 ^ 63" by simp
  with lb show ?thesis
    by (simp add: sint_word_ariths signed_take_bit_int_eq_self)
qed

lemma go_div_2:
  fixes x :: go_int
  assumes "0 \<le> sint x"
  shows "sint (go_div x 2) = sint x div 2"
proof -
  have ub: "sint x < 2 ^ 63" using sint_lt [of x] by simp
  have "sint x sdiv 2 = sint x div 2"
    using assms by (simp add: signed_divide_int_def sgn_if)
  moreover have "sint x div 2 < 2 ^ 63" "- (2 ^ 63) \<le> sint x div 2" using ub assms by auto
  ultimately show ?thesis
    by (simp add: go_div_def sint_sbintrunc' signed_take_bit_int_eq_self)
qed

lemma maxItemMapLen_in_range:
  fixes m :: go_int
  assumes "1 \<le> sint m" "m \<noteq> 9223372036854775807"
  shows "sint (go_div (m + 1) 2) = halfCapacity m"
  using assms by (simp add: go_div_2 sint_succ halfCapacity_div)

lemma maxItemMapLen_le_halfCapacity:
  fixes m :: go_int
  assumes "1 \<le> sint m"
  shows "sint (go_div (m + 1) 2) \<le> halfCapacity m \<and> 1 \<le> halfCapacity m"
proof (cases "m = 9223372036854775807")
  case True
  then show ?thesis
    by (simp add: go_div_def signed_divide_int_def halfCapacity_div)
next
  case False
  with assms show ?thesis
    by (simp add: maxItemMapLen_in_range) (simp add: halfCapacity_div)
qed

lemma NewBoundedCache_fails_iff:
  "(\<exists>e. (NewBoundedCache maxItems :: error + (string, 'v) BoundedCache) = Inl e) \<longleftrightarrow> sint maxItems < 1"
  by (simp add: NewBoundedCache_def word_sless_alt)

lemma MaxItems_in_range:
  fixes m :: go_int
  assumes "1 \<le> sint m" "m \<noteq> 9223372036854775807"
  shows "\<exists>b. (NewBoundedCache m :: error + (string, 'v) BoundedCache) = Inr b
     \<and> staleItems b = fmempty \<and> freshItems b = fmempty
     \<and> sint (maxItemMapLen b) = halfCapacity m
     \<and> sint (MaxItems b) = 2 * halfCapacity m"
proof -
  have ub: "sint m < 2 ^ 63" using sint_lt [of m] by simp
  have h: "sint (go_div (m + 1) 2) = halfCapacity m"
    using assms by (rule maxItemMapLen_in_range)
  have "sint m \<noteq> 9223372036854775807"
  proof
    assume "sint m = 9223372036854775807"
    then have "sint m = sint (9223372036854775807 :: go_int)" by simp
    then have "m = 9223372036854775807" by (rule signed_word_eqI)
    with assms show False by simp
  qed
  with ub assms have "2 * halfCapacity m < 2 ^ 63" "- (2 ^ 63) \<le> 2 * halfCapacity m"
    by (auto simp: halfCapacity_div)
  then have "sint (go_div (m + 1) 2 * 2) = 2 * halfCapacity m"
    by (simp add: sint_word_mult h signed_take_bit_int_eq_self mult.commute)
  with h assms show ?thesis
    by (simp add: NewBoundedCache_def word_sless_alt MaxItems_def)
qed

text \<open>The cases of \<open>TestNewBoundedCache\<close>, and \<open>maxItems = 3\<close>.\<close>

lemma NewBoundedCache_examples:
  "(NewBoundedCache (- 1) :: error + (string, int) BoundedCache) = Inl (Error ''maxItems must be at least 1'')"
  "(NewBoundedCache 0 :: error + (string, int) BoundedCache) = Inl (Error ''maxItems must be at least 1'')"
  "map_sum id MaxItems (NewBoundedCache 1 :: error + (string, int) BoundedCache) = Inr 2"
  "map_sum id MaxItems (NewBoundedCache 3 :: error + (string, int) BoundedCache) = Inr 4"
  "map_sum id MaxItems (NewBoundedCache 100 :: error + (string, int) BoundedCache) = Inr 100"
  by (simp_all add: NewBoundedCache_def MaxItems_def go_div_def signed_divide_int_def word_sless_alt)

text \<open>
  C5. Construction fails exactly when \<open>maxItems < 1\<close>, and the capacity is
  \<open>2 * ceil(maxItems / 2)\<close> for every \<open>maxItems\<close> from 1 up to \<open>2^63 - 2\<close>
  (\<open>NewBoundedCache_fails_iff\<close>, \<open>MaxItems_in_range\<close>). At \<open>maxItems = 2^63 - 1\<close>,
  the largest \<open>int\<close>, the sum \<open>maxItems + 1\<close> wraps around: construction succeeds with
  \<open>maxItemMapLen = - 2^62\<close>, and \<open>MaxItems()\<close> is \<open>- 2^63\<close>, where
  \<open>2 * ceil(maxItems / 2)\<close> is \<open>2^63\<close>.
\<close>

theorem NewBoundedCache_max_int:
  "(NewBoundedCache 9223372036854775807 :: error + (string, int) BoundedCache)
     = Inr \<lparr>staleItems = fmempty, freshItems = fmempty, maxItemMapLen = - 4611686018427387904\<rparr>
   \<and> sint (maxItemMapLen \<lparr>staleItems = fmempty :: (string, int) fmap, freshItems = fmempty, maxItemMapLen = - 4611686018427387904\<rparr>) = - 4611686018427387904
   \<and> sint (MaxItems \<lparr>staleItems = fmempty :: (string, int) fmap, freshItems = fmempty, maxItemMapLen = - 4611686018427387904\<rparr>) = - 9223372036854775808
   \<and> 2 * halfCapacity 9223372036854775807 = 9223372036854775808"
  by (simp add: NewBoundedCache_def MaxItems_def go_div_def signed_divide_int_def halfCapacity_div word_sless_alt)

section \<open>Size bounds\<close>

lemma len_fmupd_le: "len (fmupd k v m) \<le> len m + 1"
  by (simp add: len_def fcard_finsert_if)

lemma len_fmupd_single: "len (fmupd k v fmempty) = 1"
  by (simp add: len_def fcard_finsert_if fcard_fempty)

lemma len_fmdrop_le: "len (fmdrop k m) \<le> len m"
  by (simp add: len_def fcard_fminus1_le)

lemma fits_bounded: "fits h b \<Longrightarrow> bounded h b"
  by (auto simp: fits_def bounded_def)

lemma addLocked_fits:
  assumes "fits h b"
  shows "fits h (snd (addLocked b key val))"
proof (cases "sint (maxItemMapLen b) \<le> len (freshItems b)")
  case True
  with assms show ?thesis
    by (simp add: addLocked_def fits_def len_fmupd_single)
next
  case False
  then have "len (fmupd key val (freshItems b)) \<le> h"
    using assms len_fmupd_le [of key val "freshItems b"] by (simp add: fits_def)
  with False assms show ?thesis
    by (simp add: addLocked_def fits_def)
qed

lemma drop_stale_fits:
  "fits h b \<Longrightarrow> fits h (b\<lparr>staleItems := fmdrop key (staleItems b)\<rparr>)"
  using len_fmdrop_le [of key "staleItems b"] by (simp add: fits_def)

lemma Get_fits: "fits h b \<Longrightarrow> fits h (snd (Get b key))"
  using addLocked_fits [OF drop_stale_fits, of h b key key]
  by (auto simp: Get_def Let_def case_prod_beta split: option.splits)

lemma Peek_state: "snd (Peek b key) = b"
  by (simp add: Peek_def split: option.splits)

lemma GetOrCreate_fits:
  "fits h b \<Longrightarrow> fits h (fst (snd (GetOrCreate b key create w)))"
  using addLocked_fits [OF drop_stale_fits, of h b key key]
    addLocked_fits [of h b key]
  by (auto simp: GetOrCreate_def Let_def case_prod_beta split: option.splits)

lemma Purge_fits: "fits h b \<Longrightarrow> fits h (Purge b)"
  by (simp add: fits_def Purge_def len_fmempty)

lemma step_fits: "fits h b \<Longrightarrow> fits h (fst (snd (step p (b, w))))"
proof (cases p)
  case (OpAdd k v)
  assume "fits h b"
  then show ?thesis using OpAdd addLocked_fits [of h b k v]
    by (simp add: Add_def case_prod_beta)
next
  case (OpGet k)
  assume "fits h b"
  then show ?thesis using OpGet Get_fits [of h b k]
    by (simp add: case_prod_beta)
next
  case (OpPeek k)
  assume "fits h b"
  then show ?thesis using OpPeek Peek_state [of b k]
    by (simp add: case_prod_beta)
next
  case (OpGetOrCreate k c)
  assume "fits h b"
  then show ?thesis using OpGetOrCreate GetOrCreate_fits [of h b k c w]
    by (simp add: case_prod_beta)
next
  case OpPurge
  assume "fits h b"
  then show ?thesis using OpPurge by (simp add: Purge_fits)
qed simp_all

lemma cache_after_Nil: "cache_after [] (b, w) = b"
  by (simp add: cache_after_def)

lemma cache_after_Cons:
  "cache_after (p # ps) (b, w) = cache_after ps (snd (step p (b, w)))"
  by (simp add: cache_after_def split: prod.splits)

lemma cache_after_fits:
  "fits h b \<Longrightarrow> fits h (cache_after ps (b, w))"
proof (induction ps arbitrary: b w)
  case Nil
  then show ?case by (simp add: cache_after_Nil)
next
  case (Cons p ps)
  obtain r b' w' where st: "step p (b, w) = (r, b', w')"
    by (cases "step p (b, w)") auto
  with Cons.prems step_fits [of h b p w] have "fits h b'" by simp
  then have "fits h (cache_after ps (b', w'))" by (rule Cons.IH)
  with st show ?case by (simp add: cache_after_Cons)
qed

lemma step_maxItemMapLen: "maxItemMapLen (fst (snd (step p (b, w)))) = maxItemMapLen b"
  by (cases p)
    (simp_all add: Add_def addLocked_def Get_def Peek_def GetOrCreate_def Purge_def
      case_prod_beta Let_def split: option.splits)

lemma cache_after_maxItemMapLen: "maxItemMapLen (cache_after ps (b, w)) = maxItemMapLen b"
proof (induction ps arbitrary: b w)
  case Nil
  then show ?case by (simp add: cache_after_Nil)
next
  case (Cons p ps)
  obtain r b' w' where st: "step p (b, w) = (r, b', w')"
    by (cases "step p (b, w)") auto
  with step_maxItemMapLen [of p b w] have "maxItemMapLen b' = maxItemMapLen b" by simp
  with Cons.IH [of b' w'] st show ?case by (simp add: cache_after_Cons)
qed

text \<open>
  For every \<open>maxItems\<close> from 1 to \<open>2^63 - 2\<close> the stored \<open>maxItemMapLen\<close> is
  \<open>ceil(maxItems / 2)\<close>, it is at least 1, and the bounds hold against it after every
  sequence of calls; from any cache with \<open>maxItemMapLen \<ge> 1\<close> every call keeps them.
\<close>

lemma step_keeps_bounded:
  assumes "1 \<le> sint (maxItemMapLen b)" "bounded (sint (maxItemMapLen b)) b"
  shows "bounded (sint (maxItemMapLen b)) (fst (snd (step p (b, w))))"
proof -
  from assms have "fits (sint (maxItemMapLen b)) b" by (simp add: fits_def bounded_def)
  then have "fits (sint (maxItemMapLen b)) (fst (snd (step p (b, w))))" by (rule step_fits)
  then show ?thesis by (rule fits_bounded)
qed

lemma sizes_bounded_in_range:
  assumes "1 \<le> sint maxItems" "maxItems \<noteq> 9223372036854775807"
  shows "\<exists>b0. (NewBoundedCache maxItems :: error + (string, 'v::zero) BoundedCache) = Inr b0
     \<and> sint (maxItemMapLen (cache_after ps (b0, w))) = halfCapacity maxItems
     \<and> bounded (sint (maxItemMapLen (cache_after ps (b0, w)))) (cache_after ps (b0, w))
     \<and> bounded (sint (maxItemMapLen (cache_after ps (b0, w))))
          (fst (snd (step p (cache_after ps (b0, w), w'))))"
proof -
  let ?b0 = "\<lparr>staleItems = fmempty, freshItems = fmempty,
               maxItemMapLen = go_div (maxItems + 1) 2\<rparr> :: (string, 'v) BoundedCache"
  have new: "NewBoundedCache maxItems = Inr ?b0"
    using assms(1) by (simp add: NewBoundedCache_def word_sless_alt)
  have h: "sint (maxItemMapLen (cache_after ps (?b0, w))) = halfCapacity maxItems"
    using maxItemMapLen_in_range [OF assms] by (simp add: cache_after_maxItemMapLen)
  have "fits (halfCapacity maxItems) ?b0"
    using maxItemMapLen_le_halfCapacity [OF assms(1)] by (simp add: fits_def len_fmempty)
  then have f: "fits (halfCapacity maxItems) (cache_after ps (?b0, w))"
    by (rule cache_after_fits)
  then have "fits (halfCapacity maxItems) (fst (snd (step p (cache_after ps (?b0, w), w'))))"
    by (rule step_fits)
  with f new h show ?thesis by (simp add: fits_bounded)
qed

text \<open>
  C3. The sizes of the generations are to stay within \<open>halfCapacity\<close>, the
  \<open>maxItemMapLen\<close> the cache holds, and their sum within \<open>MaxItems()\<close>. For
  \<open>maxItems = 2^63 - 1\<close> the stored \<open>maxItemMapLen\<close> is \<open>- 2^62\<close> (the overflow of
  C5): after one \<open>Add\<close> the fresh map holds one entry, more than \<open>maxItemMapLen\<close>, and
  after two \<open>Len()\<close> is 2 while \<open>MaxItems()\<close> is \<open>- 2^63\<close>.
\<close>

theorem sizes_exceed_maxItemMapLen:
  "(NewBoundedCache 9223372036854775807 :: error + (string, int) BoundedCache)
     = Inr \<lparr>staleItems = fmempty, freshItems = fmempty, maxItemMapLen = - 4611686018427387904\<rparr>
   \<and> cache_after [OpAdd ''a'' 1]
        (\<lparr>staleItems = fmempty, freshItems = fmempty, maxItemMapLen = - 4611686018427387904\<rparr>, ())
     = \<lparr>staleItems = fmempty, freshItems = fmupd ''a'' (1::int) fmempty, maxItemMapLen = - 4611686018427387904\<rparr>
   \<and> len (freshItems \<lparr>staleItems = fmempty, freshItems = fmupd ''a'' (1::int) fmempty, maxItemMapLen = - 4611686018427387904\<rparr>) = 1
   \<and> sint (maxItemMapLen \<lparr>staleItems = fmempty, freshItems = fmupd ''a'' (1::int) fmempty, maxItemMapLen = - 4611686018427387904\<rparr>)
       = - 4611686018427387904
   \<and> \<not> bounded (sint (maxItemMapLen \<lparr>staleItems = fmempty, freshItems = fmupd ''a'' (1::int) fmempty, maxItemMapLen = - 4611686018427387904\<rparr>))
         \<lparr>staleItems = fmempty, freshItems = fmupd ''a'' (1::int) fmempty, maxItemMapLen = - 4611686018427387904\<rparr>
   \<and> fst (run [OpAdd ''a'' 1, OpAdd ''b'' 2, OpLen]
        (\<lparr>staleItems = fmempty, freshItems = fmempty, maxItemMapLen = - 4611686018427387904\<rparr> :: (string, int) BoundedCache, ()))
     = [RAdd False, RAdd False, RLen 2]
   \<and> sint (MaxItems (cache_after [OpAdd ''a'' 1, OpAdd ''b'' 2]
        (\<lparr>staleItems = fmempty, freshItems = fmempty, maxItemMapLen = - 4611686018427387904\<rparr> :: (string, int) BoundedCache, ())))
     = - 9223372036854775808"
  by (simp add: NewBoundedCache_def go_div_def signed_divide_int_def word_sless_alt
      cache_after_def Add_def addLocked_def Len_def MaxItems_def bounded_def
      len_def fcard_fempty fcard_finsert_if)

section \<open>The behaviour test, at capacity 4\<close>

text \<open>
  \<open>TestBoundedCacheBehavior\<close> with 4 in place of 100: four keys are added without an
  eviction, the first two are reported stale; \<open>Get\<close> of a fresh key evicts nothing;
  \<open>Get\<close> of a stale key rotates, evicts the other stale key and leaves the former
  fresh keys stale.
\<close>

lemma behavior_example:
  "run [OpAdd ''0'' 0, OpAdd ''1'' 1, OpAdd ''2'' 2, OpAdd ''3'' 3,
        OpPeek ''0'', OpPeek ''3'', OpGet ''2'', OpGet ''1'',
        OpPeek ''1'', OpPeek ''0'', OpPeek ''3'', OpLen]
       (\<lparr>staleItems = fmempty, freshItems = fmempty, maxItemMapLen = 2\<rparr>, ())
   = ([RAdd False, RAdd False, RAdd False, RAdd False,
       RPeek 0 True True, RPeek 3 True False, RGet 2 True False, RGet 1 True True,
       RPeek 1 True False, RPeek 0 False False, RPeek 3 True True, RLen 3],
      \<lparr>staleItems = fmupd ''3'' 3 (fmupd ''2'' 2 fmempty),
        freshItems = fmupd ''1'' (1::int) fmempty, maxItemMapLen = 2\<rparr>, ())"
  by (simp add: Add_def addLocked_def Get_def Peek_def Len_def len_def
      fcard_fempty fcard_finsert_if fmdrop_fmupd)

section \<open>Keys in both generations\<close>












section \<open>Repeated Add\<close>














section \<open>Get\<close>

lemma addLocked_rotation: "addLocked b key val = rotation_protocol b key val"
  by (simp add: addLocked_def rotation_protocol_def rotation_due_def len_pos_iff)

text \<open>
  C4. \<open>Get\<close> on a key of the fresh map returns its value with \<open>ok = true\<close>,
  \<open>evicted = false\<close> and leaves the cache as it is; on a key of the stale map only, it
  removes the key from stale, inserts it into fresh via the rotation protocol and returns
  the stale value, \<open>ok = true\<close> and the flag of that insertion; on a key of neither
  map it returns \<open>ok = false\<close> and leaves the cache as it is.
\<close>

theorem Get_cases:
  "(fmlookup (freshItems b) key = Some v \<longrightarrow> Get b key = ((v, True, False), b))
   \<and> (fmlookup (freshItems b) key = None \<and> fmlookup (staleItems b) key = Some v \<longrightarrow>
        Get b key = ((v, True, fst (promote b key v)), snd (promote b key v)))
   \<and> (fmlookup (freshItems b) key = None \<and> fmlookup (staleItems b) key = None \<longrightarrow>
        Get b key = ((0, False, False), b))"
  by (simp add: Get_def promote_def addLocked_rotation case_prod_beta Let_def)

theorem Get_cases_witness:
  "fmlookup (freshItems \<lparr>staleItems = fmupd ''a'' 1 fmempty, freshItems = fmupd ''b'' 2 fmempty, maxItemMapLen = 1\<rparr>) ''b'' = Some (2::int)
   \<and> Get \<lparr>staleItems = fmupd ''a'' 1 fmempty, freshItems = fmupd ''b'' 2 fmempty, maxItemMapLen = 1\<rparr> ''b''
       = ((2::int, True, False), \<lparr>staleItems = fmupd ''a'' 1 fmempty, freshItems = fmupd ''b'' 2 fmempty, maxItemMapLen = 1\<rparr>)
   \<and> fmlookup (freshItems \<lparr>staleItems = fmupd ''a'' 1 fmempty, freshItems = fmupd ''b'' (2::int) fmempty, maxItemMapLen = 1\<rparr>) ''a'' = None
   \<and> fmlookup (staleItems \<lparr>staleItems = fmupd ''a'' 1 fmempty, freshItems = fmupd ''b'' 2 fmempty, maxItemMapLen = 1\<rparr>) ''a'' = Some (1::int)
   \<and> Get \<lparr>staleItems = fmupd ''a'' 1 fmempty, freshItems = fmupd ''b'' 2 fmempty, maxItemMapLen = 1\<rparr> ''a''
       = ((1::int, True, False), \<lparr>staleItems = fmupd ''b'' 2 fmempty, freshItems = fmupd ''a'' 1 fmempty, maxItemMapLen = 1\<rparr>)
   \<and> fmlookup (staleItems \<lparr>staleItems = fmupd ''a'' 1 fmempty, freshItems = fmupd ''b'' (2::int) fmempty, maxItemMapLen = 1\<rparr>) ''c'' = None
   \<and> fmlookup (freshItems \<lparr>staleItems = fmupd ''a'' 1 fmempty, freshItems = fmupd ''b'' (2::int) fmempty, maxItemMapLen = 1\<rparr>) ''c'' = None
   \<and> Get \<lparr>staleItems = fmupd ''a'' 1 fmempty, freshItems = fmupd ''b'' 2 fmempty, maxItemMapLen = 1\<rparr> ''c''
       = ((0::int, False, False), \<lparr>staleItems = fmupd ''a'' 1 fmempty, freshItems = fmupd ''b'' 2 fmempty, maxItemMapLen = 1\<rparr>)"
  using Get_cases [of "\<lparr>staleItems = fmupd ''a'' 1 fmempty, freshItems = fmupd ''b'' 2 fmempty, maxItemMapLen = 1\<rparr>" "''b''" "2::int"]
    Get_cases [of "\<lparr>staleItems = fmupd ''a'' 1 fmempty, freshItems = fmupd ''b'' 2 fmempty, maxItemMapLen = 1\<rparr>" "''a''" "1::int"]
    Get_cases [of "\<lparr>staleItems = fmupd ''a'' 1 fmempty, freshItems = fmupd ''b'' 2 fmempty, maxItemMapLen = 1\<rparr>" "''c''" "1::int"]
  by (simp add: promote_def rotation_protocol_def rotation_due_def len_def fcard_fempty fcard_finsert_if fmdrop_fmupd_same)

section \<open>GetOrCreate\<close>

text \<open>
  C6. One call of \<open>GetOrCreate\<close> calls \<open>create\<close> at most once: the caller's state
  after the call is the one before it, or the one after a single \<open>create\<close>. It calls
  \<open>create\<close>, and returns \<open>created = true\<close>, exactly when the key is in neither
  generation; the created value is then inserted via the rotation protocol and returned.
  A key of the fresh map is returned as it is, and a key of the stale map is promoted as
  in \<open>Get\<close>, both with \<open>created = false\<close> and without a call of \<open>create\<close>.
\<close>

theorem GetOrCreate_cases:
  "(fmlookup (freshItems b) key = Some v \<longrightarrow>
        GetOrCreate b key create w = ((v, False, False), b, w))
   \<and> (fmlookup (freshItems b) key = None \<and> fmlookup (staleItems b) key = Some v \<longrightarrow>
        GetOrCreate b key create w = ((v, False, fst (promote b key v)), snd (promote b key v), w)
        \<and> fst (snd (GetOrCreate b key create w)) = snd (Get b key)
        \<and> snd (snd (fst (GetOrCreate b key create w))) = snd (snd (fst (Get b key))))
   \<and> (fmlookup (freshItems b) key = None \<and> fmlookup (staleItems b) key = None \<longrightarrow>
        GetOrCreate b key create w
          = ((fst (create w), True, fst (rotation_protocol b key (fst (create w)))),
             snd (rotation_protocol b key (fst (create w))), snd (create w)))
   \<and> (fst (snd (fst (GetOrCreate b key create w))) \<longleftrightarrow>
        fmlookup (freshItems b) key = None \<and> fmlookup (staleItems b) key = None)
   \<and> snd (snd (GetOrCreate b key create w))
        = (if fmlookup (freshItems b) key = None \<and> fmlookup (staleItems b) key = None
           then snd (create w) else w)"
  by (auto simp: GetOrCreate_def Get_def promote_def addLocked_rotation case_prod_beta Let_def split: option.splits)

theorem GetOrCreate_cases_witness:
  "fmlookup (freshItems \<lparr>staleItems = fmupd ''a'' 1 fmempty, freshItems = fmupd ''b'' 2 fmempty, maxItemMapLen = 1\<rparr>) ''b'' = Some (2::int)
   \<and> GetOrCreate \<lparr>staleItems = fmupd ''a'' 1 fmempty, freshItems = fmupd ''b'' 2 fmempty, maxItemMapLen = 1\<rparr> ''b''
         (\<lambda>n. (7, Suc n)) (0::nat)
       = ((2::int, False, False), \<lparr>staleItems = fmupd ''a'' 1 fmempty, freshItems = fmupd ''b'' 2 fmempty, maxItemMapLen = 1\<rparr>, 0)
   \<and> fmlookup (freshItems \<lparr>staleItems = fmupd ''a'' 1 fmempty, freshItems = fmupd ''b'' (2::int) fmempty, maxItemMapLen = 1\<rparr>) ''a'' = None
   \<and> fmlookup (staleItems \<lparr>staleItems = fmupd ''a'' 1 fmempty, freshItems = fmupd ''b'' 2 fmempty, maxItemMapLen = 1\<rparr>) ''a'' = Some (1::int)
   \<and> GetOrCreate \<lparr>staleItems = fmupd ''a'' 1 fmempty, freshItems = fmupd ''b'' 2 fmempty, maxItemMapLen = 1\<rparr> ''a''
         (\<lambda>n. (7, Suc n)) (0::nat)
       = ((1::int, False, False), \<lparr>staleItems = fmupd ''b'' 2 fmempty, freshItems = fmupd ''a'' 1 fmempty, maxItemMapLen = 1\<rparr>, 0)
   \<and> fmlookup (freshItems \<lparr>staleItems = fmupd ''a'' 1 fmempty, freshItems = fmupd ''b'' (2::int) fmempty, maxItemMapLen = 1\<rparr>) ''c'' = None
   \<and> fmlookup (staleItems \<lparr>staleItems = fmupd ''a'' 1 fmempty, freshItems = fmupd ''b'' (2::int) fmempty, maxItemMapLen = 1\<rparr>) ''c'' = None
   \<and> GetOrCreate \<lparr>staleItems = fmupd ''a'' 1 fmempty, freshItems = fmupd ''b'' 2 fmempty, maxItemMapLen = 1\<rparr> ''c''
         (\<lambda>n. (7, Suc n)) (0::nat)
       = ((7::int, True, True), \<lparr>staleItems = fmupd ''b'' 2 fmempty, freshItems = fmupd ''c'' 7 fmempty, maxItemMapLen = 1\<rparr>, 1)"
  using GetOrCreate_cases [of "\<lparr>staleItems = fmupd ''a'' 1 fmempty, freshItems = fmupd ''b'' 2 fmempty, maxItemMapLen = 1\<rparr>" "''b''" "2::int" "\<lambda>n. (7, Suc n)" "0::nat"]
    GetOrCreate_cases [of "\<lparr>staleItems = fmupd ''a'' 1 fmempty, freshItems = fmupd ''b'' 2 fmempty, maxItemMapLen = 1\<rparr>" "''a''" "1::int" "\<lambda>n. (7, Suc n)" "0::nat"]
    GetOrCreate_cases [of "\<lparr>staleItems = fmupd ''a'' 1 fmempty, freshItems = fmupd ''b'' 2 fmempty, maxItemMapLen = 1\<rparr>" "''c''" "1::int" "\<lambda>n. (7, Suc n)" "0::nat"]
  by (simp add: promote_def rotation_protocol_def rotation_due_def len_def fcard_fempty fcard_finsert_if fmdrop_fmupd_same)

section \<open>Peek\<close>

text \<open>
  C9. \<open>Peek\<close> leaves the cache as it is. For a resident key it returns \<open>ok = true\<close>
  with the stored value, and \<open>stale = false\<close> exactly when the fresh map holds the key;
  for a key of neither map it returns \<open>ok = false\<close>.
\<close>

theorem Peek_reads:
  "snd (Peek b key) = b
   \<and> (fmlookup (freshItems b) key = Some v \<longrightarrow> fst (Peek b key) = (v, True, False))
   \<and> (fmlookup (freshItems b) key = None \<and> fmlookup (staleItems b) key = Some v \<longrightarrow>
        fst (Peek b key) = (v, True, True))
   \<and> (fmlookup (freshItems b) key = None \<and> fmlookup (staleItems b) key = None \<longrightarrow>
        fst (Peek b key) = (0, False, False))
   \<and> (fst (snd (fst (Peek b key))) \<longleftrightarrow> resident b key)
   \<and> (resident b key \<longrightarrow>
        (snd (snd (fst (Peek b key))) = False \<longleftrightarrow> key |\<in>| fmdom (freshItems b)))"
  by (auto simp: Peek_def resident_def fmlookup_dom_iff split: option.splits)

theorem Peek_reads_witness:
  "fmlookup (freshItems \<lparr>staleItems = fmupd ''a'' 1 fmempty, freshItems = fmupd ''b'' 2 fmempty, maxItemMapLen = 1\<rparr>) ''b'' = Some (2::int)
   \<and> Peek \<lparr>staleItems = fmupd ''a'' 1 fmempty, freshItems = fmupd ''b'' 2 fmempty, maxItemMapLen = 1\<rparr> ''b''
       = ((2::int, True, False), \<lparr>staleItems = fmupd ''a'' 1 fmempty, freshItems = fmupd ''b'' 2 fmempty, maxItemMapLen = 1\<rparr>)
   \<and> fmlookup (freshItems \<lparr>staleItems = fmupd ''a'' 1 fmempty, freshItems = fmupd ''b'' (2::int) fmempty, maxItemMapLen = 1\<rparr>) ''a'' = None
   \<and> fmlookup (staleItems \<lparr>staleItems = fmupd ''a'' 1 fmempty, freshItems = fmupd ''b'' 2 fmempty, maxItemMapLen = 1\<rparr>) ''a'' = Some (1::int)
   \<and> resident \<lparr>staleItems = fmupd ''a'' (1::int) fmempty, freshItems = fmupd ''b'' 2 fmempty, maxItemMapLen = 1\<rparr> ''a''
   \<and> Peek \<lparr>staleItems = fmupd ''a'' 1 fmempty, freshItems = fmupd ''b'' 2 fmempty, maxItemMapLen = 1\<rparr> ''a''
       = ((1::int, True, True), \<lparr>staleItems = fmupd ''a'' 1 fmempty, freshItems = fmupd ''b'' 2 fmempty, maxItemMapLen = 1\<rparr>)
   \<and> fmlookup (staleItems \<lparr>staleItems = fmupd ''a'' 1 fmempty, freshItems = fmupd ''b'' (2::int) fmempty, maxItemMapLen = 1\<rparr>) ''c'' = None
   \<and> fmlookup (freshItems \<lparr>staleItems = fmupd ''a'' 1 fmempty, freshItems = fmupd ''b'' (2::int) fmempty, maxItemMapLen = 1\<rparr>) ''c'' = None
   \<and> Peek \<lparr>staleItems = fmupd ''a'' 1 fmempty, freshItems = fmupd ''b'' 2 fmempty, maxItemMapLen = 1\<rparr> ''c''
       = ((0::int, False, False), \<lparr>staleItems = fmupd ''a'' 1 fmempty, freshItems = fmupd ''b'' 2 fmempty, maxItemMapLen = 1\<rparr>)"
  using Peek_reads [of "\<lparr>staleItems = fmupd ''a'' 1 fmempty, freshItems = fmupd ''b'' 2 fmempty, maxItemMapLen = 1\<rparr>" "''b''" "2::int"]
    Peek_reads [of "\<lparr>staleItems = fmupd ''a'' 1 fmempty, freshItems = fmupd ''b'' 2 fmempty, maxItemMapLen = 1\<rparr>" "''a''" "1::int"]
    Peek_reads [of "\<lparr>staleItems = fmupd ''a'' 1 fmempty, freshItems = fmupd ''b'' 2 fmempty, maxItemMapLen = 1\<rparr>" "''c''" "1::int"]
  by (simp add: resident_def prod_eq_iff)

section \<open>Lookup order\<close>



section \<open>The two implementations\<close>















end
